theory Spec2Isabelle
  imports Main
begin

section \<open>The run-job of core/runjob.go\<close>

text \<open>
  A shallow embedding of \<^verbatim>\<open>core/runjob.go\<close>: the two specification parsers, the
  construction of a container, the poll loop that watches it, its removal, and \<^verbatim>\<open>Run\<close>
  which chains them. The Docker client, the file system and the clock are outside the
  file; they appear as parameters, and every call made to them is recorded in a log.
\<close>

subsection \<open>Errors\<close>

text \<open>
  One constructor for each \<^verbatim>\<open>fmt.Errorf\<close> of the file, for the two sentinel errors it
  returns (\<^verbatim>\<open>ErrMaxTimeRunning\<close>, \<^verbatim>\<open>ErrUnexpected\<close>), and one for the errors that
  come from outside (the client, \<^verbatim>\<open>os.Open\<close>, the scanner). \<^verbatim>\<open>NilDereference\<close> is the
  panic of reading \<^verbatim>\<open>container.ID\<close> through a nil pointer.
\<close>

datatype error =
    ExternalError string
  | ErrMaxTimeRunning
  | ErrUnexpected
  | ErrPullingImage string error
  | ErrVolumeSpecsNotCommaSeparated
  | ErrVolumeSpecFormat string
  | ErrEnvFormat string
  | ErrParsingEnvFiles error
  | ErrParsingVolumes error
  | ErrCreatingExec error
  | ErrConnectingNetwork error
  | ErrNonZeroExitCode int
  | NilDereference

subsection \<open>strings.Split with a one-byte separator\<close>

text \<open>
  \<^verbatim>\<open>strings.Split(s, sep)\<close> cuts \<^verbatim>\<open>s\<close> at every occurrence of \<^verbatim>\<open>sep\<close>; the result has one
  more element than there are occurrences, so it is never empty (\<^verbatim>\<open>Split("", ",")\<close> is
  \<^verbatim>\<open>[""]\<close>). The file only ever splits on \<^verbatim>\<open>","\<close>, \<^verbatim>\<open>":"\<close> and \<^verbatim>\<open>"="\<close>.
\<close>

fun Split :: "string \<Rightarrow> char \<Rightarrow> string list" where
  "Split [] sep = [[]]"
| "Split (c # cs) sep =
     (if c = sep then [] # Split cs sep
      else (case Split cs sep of
              [] \<Rightarrow> [[c]]
            | p # ps \<Rightarrow> (c # p) # ps))"

subsection \<open>parseVolumeSpec (lines 98-119)\<close>

record Volume =
  From :: string
  To :: string

fun parseVolumeSpec_loop :: "string list \<Rightarrow> Volume list \<Rightarrow> error + Volume list" where
  "parseVolumeSpec_loop [] volumes = Inr volumes"
| "parseVolumeSpec_loop (specs # rest) volumes =
     (let spec = Split specs CHR '':'' in
      if length spec = 0 then parseVolumeSpec_loop rest volumes
      else if length spec \<noteq> 2 then Inl (ErrVolumeSpecFormat specs)
      else parseVolumeSpec_loop rest (volumes @ [\<lparr>From = spec ! 0, To = spec ! 1\<rparr>]))"

definition parseVolumeSpec :: "string \<Rightarrow> error + Volume list" where
  "parseVolumeSpec volumeSpec =
     (let volSpecList = Split volumeSpec CHR '','' in
      if length volSpecList = 0 then Inl ErrVolumeSpecsNotCommaSeparated
      else parseVolumeSpec_loop volSpecList [])"

subsection \<open>parseEnvSpecs (lines 121-138)\<close>

fun parseEnvSpecs_loop :: "string list \<Rightarrow> string list \<Rightarrow> error + string list" where
  "parseEnvSpecs_loop [] envs = Inr envs"
| "parseEnvSpecs_loop (env # rest) envs =
     (let spec = Split env CHR ''='' in
      if length spec > 0 then parseEnvSpecs_loop rest envs
      else if length spec > 2 then Inl (ErrEnvFormat env)
      else parseEnvSpecs_loop rest (envs @ [env]))"

definition parseEnvSpecs :: "string list \<Rightarrow> error + string list" where
  "parseEnvSpecs envSpecs = parseEnvSpecs_loop envSpecs []"

subsection \<open>parseEnvsFromFiles (lines 140-159)\<close>

text \<open>
  \<^verbatim>\<open>readLines\<close> opens a file and scans it; the file system is a parameter that gives,
  for a path, the error of \<^verbatim>\<open>os.Open\<close> or of the scanner, or the lines scanned.
\<close>

type_synonym file_system = "string \<Rightarrow> error + string list"

definition readLines :: "file_system \<Rightarrow> string \<Rightarrow> error + string list" where
  "readLines fs path = fs path"

fun parseEnvsFromFiles_loop ::
  "file_system \<Rightarrow> string list \<Rightarrow> string list \<Rightarrow> error + string list" where
  "parseEnvsFromFiles_loop fs [] envs = Inr envs"
| "parseEnvsFromFiles_loop fs (file # rest) envs =
     (case readLines fs file of
        Inl err \<Rightarrow> Inl err
      | Inr lines \<Rightarrow>
          (case parseEnvSpecs lines of
             Inl err \<Rightarrow> Inl err
           | Inr es \<Rightarrow> parseEnvsFromFiles_loop fs rest (envs @ es)))"

definition parseEnvsFromFiles :: "file_system \<Rightarrow> string \<Rightarrow> error + string list" where
  "parseEnvsFromFiles fs envFiles =
     parseEnvsFromFiles_loop fs (Split envFiles CHR '','') []"

section \<open>The container engine\<close>

text \<open>
  The types of \<^verbatim>\<open>go-dockerclient\<close> that the file builds or reads, with the fields it
  sets or reads; a field the file leaves out of a struct literal has Go's zero value.
\<close>

record State =
  Running :: bool
  ExitCode :: int

record Container =
  ID :: string
  State :: State

record Network =
  Network_ID :: string

record Mount =
  Source :: string
  Destination :: string
  RW :: bool

record Config =
  Config_Image :: string
  AttachStdin :: bool
  AttachStdout :: bool
  AttachStderr :: bool
  Tty :: bool
  Cmd :: "string list"
  Config_User :: string
  Config_Env :: "string list"
  Mounts :: "Mount list"

text \<open>\<^verbatim>\<open>NetworkFilterOpts\<close> is a map from a key to a set of values, kept as a list of pairs.\<close>

type_synonym NetworkFilterOpts = "(string \<times> (string \<times> bool) list) list"

record RemoveContainerOptions =
  Remove_ID :: string
  RemoveVolumes :: bool
  Force :: bool

text \<open>
  Every call that leaves the process is an event: the calls of the client, and
  \<^verbatim>\<open>time.Sleep\<close> with its duration in nanoseconds. \<^verbatim>\<open>PullImage\<close> receives what
  \<^verbatim>\<open>buildPullOptions\<close> makes of the image name; that function is in another file of the
  package, so the event records the image name it was given.
\<close>

datatype event =
    is_PullImage: PullImage_call string
  | is_CreateContainer: CreateContainer_call Config
  | is_FilteredListNetworks: FilteredListNetworks_call NetworkFilterOpts
  | is_ConnectNetwork: ConnectNetwork_call string string
  | is_StartContainer: StartContainer_call string
  | is_InspectContainer: InspectContainer_call string
  | is_RemoveContainer: RemoveContainer_call RemoveContainerOptions
  | is_Sleep: Sleep_call int

text \<open>
  The world outside: what each client call answers, given the events so far and the
  arguments of the call; the files; and \<^verbatim>\<open>args.GetArgs\<close>, which tokenises the command.
  A call that can fail answers with an error or with its result.
\<close>

record world =
  PullImage :: "event list \<Rightarrow> string \<Rightarrow> error option"
  CreateContainer :: "event list \<Rightarrow> Config \<Rightarrow> error + Container"
  FilteredListNetworks :: "event list \<Rightarrow> NetworkFilterOpts \<Rightarrow> error + Network list"
  ConnectNetwork :: "event list \<Rightarrow> string \<Rightarrow> string \<Rightarrow> error option"
  StartContainer :: "event list \<Rightarrow> string \<Rightarrow> error option"
  InspectContainer :: "event list \<Rightarrow> string \<Rightarrow> error + Container"
  RemoveContainer :: "event list \<Rightarrow> RemoveContainerOptions \<Rightarrow> error option"
  files :: file_system
  GetArgs :: "string \<Rightarrow> string list"

section \<open>The job\<close>

record RunJob =
  Command :: string
  User :: string
  TTY :: bool
  Delete :: bool
  Image :: string
  Network :: string
  Container :: string
  Volumes :: string
  Env :: string
  EnvFiles :: string

subsection \<open>pullImage (lines 72-79)\<close>

definition pullImage :: "world \<Rightarrow> RunJob \<Rightarrow> event list \<Rightarrow> error option \<times> event list" where
  "pullImage w j log =
     (case PullImage w log (Image j) of
        Some err \<Rightarrow> (Some (ErrPullingImage (Image j) err), log @ [PullImage_call (Image j)])
      | None \<Rightarrow> (None, log @ [PullImage_call (Image j)]))"

subsection \<open>buildContainer (lines 161-235)\<close>

text \<open>Lines 163-185: the environment, inline entries first, then the entries of the files.\<close>

definition buildContainer_envs :: "world \<Rightarrow> RunJob \<Rightarrow> error + string list" where
  "buildContainer_envs w j =
     (case (if Env j \<noteq> []
            then (case parseEnvSpecs (Split (Env j) CHR '','') of
                    Inl err \<Rightarrow> Inl (ErrParsingEnvFiles err)
                  | Inr es \<Rightarrow> Inr ([] @ es))
            else Inr []) of
        Inl err \<Rightarrow> Inl err
      | Inr envs \<Rightarrow>
          if EnvFiles j \<noteq> []
          then (case parseEnvsFromFiles (files w) (EnvFiles j) of
                  Inl err \<Rightarrow> Inl (ErrParsingEnvFiles err)
                | Inr envsFromFiles \<Rightarrow> Inr (envs @ envsFromFiles))
          else Inr envs)"

text \<open>Lines 187-198: the mounts, all of them read-write.\<close>

definition buildContainer_mounts :: "RunJob \<Rightarrow> error + Mount list" where
  "buildContainer_mounts j =
     (if Volumes j \<noteq> []
      then (case parseVolumeSpec (Volumes j) of
              Inl err \<Rightarrow> Inl (ErrParsingVolumes err)
            | Inr volumes \<Rightarrow>
                Inr (map (\<lambda>v. \<lparr>Source = From v, Destination = To v, RW = True\<rparr>) volumes))
      else Inr [])"

text \<open>Lines 201-211: the configuration given to \<^verbatim>\<open>CreateContainer\<close>.\<close>

definition buildContainer_config :: "world \<Rightarrow> RunJob \<Rightarrow> string list \<Rightarrow> Mount list \<Rightarrow> Config" where
  "buildContainer_config w j envs mounts =
     \<lparr>Config_Image = Image j, AttachStdin = False, AttachStdout = True, AttachStderr = True,
      Tty = TTY j, Cmd = GetArgs w (Command j), Config_User = User j,
      Config_Env = envs, Mounts = mounts\<rparr>"

text \<open>Lines 224-230: connect the container to each network found, stopping at the first failure.\<close>

fun connectNetworks ::
  "world \<Rightarrow> Container \<Rightarrow> Network list \<Rightarrow> event list \<Rightarrow> error option \<times> event list" where
  "connectNetworks w c [] log = (None, log)"
| "connectNetworks w c (network # rest) log =
     (case ConnectNetwork w log (Network_ID network) (ID c) of
        Some err \<Rightarrow>
          (Some (ErrConnectingNetwork err), log @ [ConnectNetwork_call (Network_ID network) (ID c)])
      | None \<Rightarrow>
          connectNetworks w c rest (log @ [ConnectNetwork_call (Network_ID network) (ID c)]))"

text \<open>
  The result is the pair the Go function returns, a container pointer (nil is \<open>None\<close>)
  and an error (nil is \<open>None\<close>), with the log. The client's \<^verbatim>\<open>CreateContainer\<close> returns a
  nil container with its error.
\<close>

definition buildContainer ::
  "world \<Rightarrow> RunJob \<Rightarrow> event list \<Rightarrow> Container option \<times> error option \<times> event list" where
  "buildContainer w j log =
     (case buildContainer_envs w j of
        Inl err \<Rightarrow> (None, Some err, log)
      | Inr envs \<Rightarrow>
     (case buildContainer_mounts j of
        Inl err \<Rightarrow> (None, Some err, log)
      | Inr mounts \<Rightarrow>
     (let config = buildContainer_config w j envs mounts;
          log1 = log @ [CreateContainer_call config] in
      case CreateContainer w log config of
        Inl err \<Rightarrow> (None, Some (ErrCreatingExec err), log1)
      | Inr c \<Rightarrow>
          if Network j \<noteq> []
          then (let networkOpts = [(''name'', [(Network j, True)])];
                    log2 = log1 @ [FilteredListNetworks_call networkOpts] in
                case FilteredListNetworks w log1 networkOpts of
                  Inl err \<Rightarrow> (Some c, None, log2)
                | Inr networks \<Rightarrow>
                    (case connectNetworks w c networks log2 of
                       (Some err, log3) \<Rightarrow> (Some c, Some err, log3)
                     | (None, log3) \<Rightarrow> (Some c, None, log3)))
          else (Some c, None, log1))))"

subsection \<open>startContainer and getContainer (lines 237-247)\<close>

definition startContainer ::
  "world \<Rightarrow> Container \<Rightarrow> event list \<Rightarrow> error option \<times> event list" where
  "startContainer w c log = (StartContainer w log (ID c), log @ [StartContainer_call (ID c)])"

definition getContainer ::
  "world \<Rightarrow> string \<Rightarrow> event list \<Rightarrow> Container option \<times> error option \<times> event list" where
  "getContainer w ident log =
     (case InspectContainer w log ident of
        Inl err \<Rightarrow> (None, Some err, log @ [InspectContainer_call ident])
      | Inr container \<Rightarrow> (Some container, None, log @ [InspectContainer_call ident]))"

subsection \<open>watchContainer (lines 249-284)\<close>

text \<open>
  A \<^verbatim>\<open>time.Duration\<close> is a signed 64-bit count of nanoseconds. The accumulated duration
  \<^verbatim>\<open>r\<close> starts at 0 and the loop leaves as soon as it is above 24 hours, so it stays
  below \<open>2 ^ 63\<close> and is kept as an \<open>int\<close>.
\<close>

definition watchDuration :: int where
  "watchDuration = 1000000 * 100"

definition maxProcessDuration :: int where
  "maxProcessDuration = 3600000000000 * 24"

function watchContainer_loop ::
  "world \<Rightarrow> string \<Rightarrow> int \<Rightarrow> event list \<Rightarrow> (error + State) \<times> event list" where
  "watchContainer_loop w containerID r log =
     (let log1 = log @ [Sleep_call watchDuration];
          r1 = r + watchDuration in
      if r1 > maxProcessDuration then (Inl ErrMaxTimeRunning, log1)
      else (case InspectContainer w log1 containerID of
              Inl err \<Rightarrow> (Inl err, log1 @ [InspectContainer_call containerID])
            | Inr c \<Rightarrow>
                if \<not> Running (State c)
                then (Inr (State c), log1 @ [InspectContainer_call containerID])
                else watchContainer_loop w containerID r1
                       (log1 @ [InspectContainer_call containerID])))"
  by pat_completeness auto
termination
  by (relation "measure (\<lambda>(w, containerID, r, log). nat (maxProcessDuration - r))")
     (auto simp: watchDuration_def maxProcessDuration_def)

declare watchContainer_loop.simps [simp del]

definition watchContainer :: "world \<Rightarrow> string \<Rightarrow> event list \<Rightarrow> error option \<times> event list" where
  "watchContainer w containerID log =
     (case watchContainer_loop w containerID 0 log of
        (Inl err, log1) \<Rightarrow> (Some err, log1)
      | (Inr s, log1) \<Rightarrow>
          (if ExitCode s = 0 then (None, log1)
           else if ExitCode s = - 1 then (Some ErrUnexpected, log1)
           else (Some (ErrNonZeroExitCode (ExitCode s)), log1)))"

subsection \<open>deleteContainer (lines 286-294)\<close>

definition deleteContainer ::
  "world \<Rightarrow> RunJob \<Rightarrow> string \<Rightarrow> event list \<Rightarrow> error option \<times> event list" where
  "deleteContainer w j containerID log =
     (if \<not> Delete j then (None, log)
      else (let opts = \<lparr>Remove_ID = containerID, RemoveVolumes = False, Force = False\<rparr> in
            (RemoveContainer w log opts, log @ [RemoveContainer_call opts])))"

subsection \<open>Run (lines 39-70)\<close>

text \<open>Lines 42-56: the container to run, freshly built or looked up.\<close>

definition Run_container ::
  "world \<Rightarrow> RunJob \<Rightarrow> event list \<Rightarrow> Container option \<times> error option \<times> event list" where
  "Run_container w j log =
     (if Image j \<noteq> [] \<and> Container j = []
      then (case pullImage w j log of
              (Some err, log1) \<Rightarrow> (None, Some err, log1)
            | (None, log1) \<Rightarrow> buildContainer w j log1)
      else getContainer w (Container j) log)"

text \<open>
  \<^verbatim>\<open>Run\<close> returns as soon as the container step has an error; otherwise it reads
  \<^verbatim>\<open>container.ID\<close>, which panics on a nil pointer.
\<close>

definition Run :: "world \<Rightarrow> RunJob \<Rightarrow> event list \<Rightarrow> error option \<times> event list" where
  "Run w j log =
     (case Run_container w j log of
        (_, Some err, log1) \<Rightarrow> (Some err, log1)
      | (None, None, log1) \<Rightarrow> (Some NilDereference, log1)
      | (Some container, None, log1) \<Rightarrow>
     (case startContainer w container log1 of
        (Some err, log2) \<Rightarrow> (Some err, log2)
      | (None, log2) \<Rightarrow>
     (case watchContainer w (ID container) log2 of
        (Some err, log3) \<Rightarrow> (Some err, log3)
      | (None, log3) \<Rightarrow>
          if Container j = [] then deleteContainer w j (ID container) log3
          else (None, log3))))"

section \<open>Vocabulary of the properties\<close>

text \<open>The events a call adds to the log it was given.\<close>

definition new_events :: "event list \<Rightarrow> event list \<Rightarrow> event list" where
  "new_events log log' = drop (length log) log'"

text \<open>\<open>n\<close> rounds of the poll loop in which the container was still running: a sleep, an inspect.\<close>

definition polls :: "string \<Rightarrow> nat \<Rightarrow> event list" where
  "polls containerID n =
     concat (replicate n [Sleep_call watchDuration, InspectContainer_call containerID])"

text \<open>
  The run up to line 64: the container and the log with which \<^verbatim>\<open>Run\<close> reaches line 66,
  if it does, that is if the container step, the start and the watch returned no error.
\<close>

definition Run_watched :: "world \<Rightarrow> RunJob \<Rightarrow> event list \<Rightarrow> (Container \<times> event list) option" where
  "Run_watched w j log =
     (case Run_container w j log of
        (Some container, None, log1) \<Rightarrow>
          (case startContainer w container log1 of
             (None, log2) \<Rightarrow>
               (case watchContainer w (ID container) log2 of
                  (None, log3) \<Rightarrow> Some (container, log3)
                | (Some err, log3) \<Rightarrow> None)
           | (Some err, log2) \<Rightarrow> None)
      | _ \<Rightarrow> None)"

text \<open>
  A world in which every call succeeds, except the inspection of the empty identifier:
  the container it creates is \<^verbatim>\<open>c1\<close>, the one network it lists is \<^verbatim>\<open>n1\<close>, an inspected
  container has stopped with exit code 0. The job is the one of \<^verbatim>\<open>TestRun\<close>.
\<close>

definition test_world :: world where
  "test_world =
     \<lparr>PullImage = (\<lambda>log image. None),
      CreateContainer = (\<lambda>log config. Inr \<lparr>ID = ''c1'', State = \<lparr>Running = False, ExitCode = 0\<rparr>\<rparr>),
      FilteredListNetworks = (\<lambda>log opts. Inr [\<lparr>Network_ID = ''n1''\<rparr>]),
      ConnectNetwork = (\<lambda>log network container. None),
      StartContainer = (\<lambda>log container. None),
      InspectContainer = (\<lambda>log ident.
         if ident = [] then Inl (ExternalError ''No such container'')
         else Inr \<lparr>ID = ident, State = \<lparr>Running = False, ExitCode = 0\<rparr>\<rparr>),
      RemoveContainer = (\<lambda>log opts. None),
      files = (\<lambda>path. Inr [''FILE0KEY1=VALUE'']),
      GetArgs = (\<lambda>command. Split command CHR '' '')\<rparr>"


definition test_job :: RunJob where
  "test_job =
     \<lparr>Command = ''echo'', User = ''foo'', TTY = True, Delete = True, Image = ''test-image'',
      Network = ''foo'', Container = [], Volumes = ''/data:/data,/another/path:/config'',
      Env = ''KEY1=val1,KEY2=val2'', EnvFiles = []\<rparr>"

section \<open>Properties of the parsers\<close>

lemma Split_not_Nil: "Split s sep \<noteq> []"
  by (induction s) (auto split: list.splits)

lemma length_Split: "length (Split s sep) = Suc (length (filter (\<lambda>c. c = sep) s))"
  by (induction s) (auto split: list.splits simp: Split_not_Nil)

lemma parseEnvSpecs_loop_skips: "parseEnvSpecs_loop envSpecs envs = Inr envs"
  by (induction envSpecs) (auto simp: Split_not_Nil)

lemma parseEnvsFromFiles_loop_keeps:
  "parseEnvsFromFiles_loop fs paths envs = Inr es \<Longrightarrow> es = envs"
  by (induction paths arbitrary: envs)
     (auto simp: parseEnvSpecs_def parseEnvSpecs_loop_skips split: sum.splits)

lemma Split_no_sep: "sep \<notin> set s \<Longrightarrow> Split s sep = [s]"
  by (induction s) auto

lemma Split_one_sep:
  "length (filter (\<lambda>c. c = sep) s) = 1 \<Longrightarrow>
   Split s sep = [takeWhile (\<lambda>c. c \<noteq> sep) s, tl (dropWhile (\<lambda>c. c \<noteq> sep) s)]"
proof (induction s)
  case Nil
  then show ?case by simp
next
  case (Cons c cs)
  show ?case
  proof (cases "c = sep")
    case True
    with Cons.prems have "filter (\<lambda>c. c = sep) cs = []" by simp
    then have "sep \<notin> set cs" by (auto simp: filter_empty_conv)
    with True show ?thesis by (simp add: Split_no_sep)
  next
    case False
    with Cons.prems have "length (filter (\<lambda>c. c = sep) cs) = 1" by simp
    with Cons.IH False show ?thesis by simp
  qed
qed

lemma parseVolumeSpec_loop_find:
  "parseVolumeSpec_loop specsList volumes =
     (case find (\<lambda>specs. length (Split specs CHR '':'') \<noteq> 2) specsList of
        Some specs \<Rightarrow> Inl (ErrVolumeSpecFormat specs)
      | None \<Rightarrow>
          Inr (volumes @ map (\<lambda>specs. \<lparr>From = Split specs CHR '':'' ! 0,
                                       To = Split specs CHR '':'' ! 1\<rparr>) specsList))"
proof (induction specsList arbitrary: volumes)
  case Nil
  then show ?case by simp
next
  case (Cons specs rest)
  show ?case
  proof (cases "length (Split specs CHR '':'') = 2")
    case True
    then show ?thesis
      by (simp add: Cons.IH Let_def Split_not_Nil split: option.splits)
  next
    case False
    then show ?thesis by (simp add: Let_def Split_not_Nil)
  qed
qed

lemma buildContainer_envs_Nil: "buildContainer_envs w j = Inr envs \<Longrightarrow> envs = []"
  by (auto simp: buildContainer_envs_def parseEnvSpecs_def parseEnvSpecs_loop_skips
        parseEnvsFromFiles_def dest: parseEnvsFromFiles_loop_keeps split: if_splits sum.splits)

section \<open>Events of the container construction\<close>

lemma connectNetworks_events:
  "\<exists>evs. snd (connectNetworks w c networks log) = log @ evs \<and>
     (\<forall>e \<in> set evs. \<exists>n. e = ConnectNetwork_call n (ID c))"
proof (induction networks arbitrary: log)
  case Nil
  then show ?case by simp
next
  case (Cons network rest)
  show ?case
  proof (cases "ConnectNetwork w log (Network_ID network) (ID c)")
    case None
    from Cons.IH[of "log @ [ConnectNetwork_call (Network_ID network) (ID c)]"]
    obtain evs where "snd (connectNetworks w c rest (log @ [ConnectNetwork_call (Network_ID network) (ID c)]))
         = (log @ [ConnectNetwork_call (Network_ID network) (ID c)]) @ evs"
       and "\<forall>e \<in> set evs. \<exists>n. e = ConnectNetwork_call n (ID c)" by blast
    with None show ?thesis
      by (intro exI[of _ "ConnectNetwork_call (Network_ID network) (ID c) # evs"]) auto
  next
    case (Some err)
    then show ?thesis by simp
  qed
qed

lemma buildContainer_events:
  "\<exists>evs. snd (snd (buildContainer w j log)) = log @ evs \<and>
     (\<forall>e \<in> set evs. is_CreateContainer e \<or> is_FilteredListNetworks e \<or> is_ConnectNetwork e) \<and>
     (\<forall>config. CreateContainer_call config \<in> set evs \<longrightarrow>
        (\<exists>envs. buildContainer_envs w j = Inr envs \<and> Config_Env config = envs))"
proof (cases "buildContainer_envs w j")
  case (Inl err)
  then show ?thesis by (simp add: buildContainer_def buildContainer_config_def)
next
  case envs: (Inr envs)
  show ?thesis
  proof (cases "buildContainer_mounts j")
    case (Inl err)
    with envs show ?thesis by (simp add: buildContainer_def buildContainer_config_def)
  next
    case mounts: (Inr mounts)
    let ?config = "buildContainer_config w j envs mounts"
    show ?thesis
    proof (cases "CreateContainer w log ?config")
      case (Inl err)
      with envs mounts show ?thesis by (simp add: buildContainer_def buildContainer_config_def)
    next
      case c: (Inr c)
      show ?thesis
      proof (cases "Network j = []")
        case True
        with envs mounts c show ?thesis by (simp add: buildContainer_def buildContainer_config_def)
      next
        case False
        let ?opts = "[(''name'', [(Network j, True)])]"
        let ?log1 = "log @ [CreateContainer_call ?config]"
        let ?log2 = "?log1 @ [FilteredListNetworks_call ?opts]"
        show ?thesis
        proof (cases "FilteredListNetworks w ?log1 ?opts")
          case (Inl err)
          with envs mounts c False show ?thesis by (simp add: buildContainer_def buildContainer_config_def)
        next
          case (Inr networks)
          obtain evs where evs: "snd (connectNetworks w c networks ?log2) = ?log2 @ evs"
            "\<forall>e \<in> set evs. \<exists>n. e = ConnectNetwork_call n (ID c)"
            using connectNetworks_events by blast
          have "snd (snd (buildContainer w j log)) = snd (connectNetworks w c networks ?log2)"
            using envs mounts c False Inr
            by (simp add: buildContainer_def Let_def split: prod.splits option.splits)
          with evs have "snd (snd (buildContainer w j log)) =
             log @ (CreateContainer_call ?config # FilteredListNetworks_call ?opts # evs)"
            by simp
          moreover have "\<forall>e \<in> set (CreateContainer_call ?config #
              FilteredListNetworks_call ?opts # evs).
              is_CreateContainer e \<or> is_FilteredListNetworks e \<or> is_ConnectNetwork e"
            using evs(2) by auto
          moreover have "\<forall>config. CreateContainer_call config \<in>
              set (CreateContainer_call ?config # FilteredListNetworks_call ?opts # evs) \<longrightarrow>
              Config_Env config = envs"
            using evs(2) by (auto simp: buildContainer_config_def)
          ultimately show ?thesis using envs by blast
        qed
      qed
    qed
  qed
qed

lemma connectNetworks_stops:
  assumes "\<forall>pre n post. connected = pre @ n # post \<longrightarrow>
             ConnectNetwork w (log @ map (\<lambda>n. ConnectNetwork_call (Network_ID n) (ID c)) pre)
               (Network_ID n) (ID c) = None"
    and "ConnectNetwork w (log @ map (\<lambda>n. ConnectNetwork_call (Network_ID n) (ID c)) connected)
           (Network_ID network) (ID c) = Some err"
  shows "connectNetworks w c (connected @ network # rest) log =
           (Some (ErrConnectingNetwork err),
            log @ map (\<lambda>n. ConnectNetwork_call (Network_ID n) (ID c)) (connected @ [network]))"
  using assms
proof (induction connected arbitrary: log)
  case Nil
  then show ?case by simp
next
  case (Cons n connected)
  let ?conn = "\<lambda>n. ConnectNetwork_call (Network_ID n) (ID c)"
  from Cons.prems(1)[rule_format, of "[]" n connected]
  have first: "ConnectNetwork w log (Network_ID n) (ID c) = None" by simp
  have "\<forall>pre m post. connected = pre @ m # post \<longrightarrow>
          ConnectNetwork w ((log @ [?conn n]) @ map ?conn pre) (Network_ID m) (ID c) = None"
  proof (intro allI impI)
    fix pre m post
    assume "connected = pre @ m # post"
    then have "n # connected = (n # pre) @ m # post" by simp
    from Cons.prems(1)[rule_format, OF this]
    show "ConnectNetwork w ((log @ [?conn n]) @ map ?conn pre) (Network_ID m) (ID c) = None"
      by simp
  qed
  moreover from Cons.prems(2)
  have "ConnectNetwork w ((log @ [?conn n]) @ map ?conn connected) (Network_ID network) (ID c)
          = Some err" by simp
  ultimately have "connectNetworks w c (connected @ network # rest) (log @ [?conn n]) =
      (Some (ErrConnectingNetwork err), (log @ [?conn n]) @ map ?conn (connected @ [network]))"
    by (rule Cons.IH)
  with first show ?case by simp
qed


section \<open>Events of the poll loop\<close>

lemma polls_Suc:
  "polls containerID (Suc n) =
     polls containerID n @ [Sleep_call watchDuration, InspectContainer_call containerID]"
  unfolding polls_def by (induction n) auto

lemma polls_0: "polls containerID 0 = []"
  by (simp add: polls_def)

lemma length_polls: "length (polls containerID n) = 2 * n"
  by (simp add: polls_def length_concat sum_list_replicate)

lemma watchContainer_loop_running:
  assumes "\<forall>k<n. \<exists>c. InspectContainer w (log @ polls containerID k @ [Sleep_call watchDuration])
                      containerID = Inr c \<and> Running (State c)"
    and "r + int n * watchDuration \<le> maxProcessDuration"
  shows "watchContainer_loop w containerID r log =
         watchContainer_loop w containerID (r + int n * watchDuration)
           (log @ polls containerID n)"
  using assms
proof (induction n)
  case 0
  then show ?case by (simp add: polls_0)
next
  case (Suc n)
  have wd: "0 < watchDuration" by (simp add: watchDuration_def)
  from Suc.prems(2) have le: "r + int n * watchDuration \<le> maxProcessDuration"
    using wd by (simp add: algebra_simps)
  from Suc.prems(1) have "\<forall>k<n. \<exists>c. InspectContainer w
      (log @ polls containerID k @ [Sleep_call watchDuration]) containerID = Inr c
      \<and> Running (State c)" by simp
  with Suc.IH le have step: "watchContainer_loop w containerID r log =
         watchContainer_loop w containerID (r + int n * watchDuration)
           (log @ polls containerID n)" by simp
  from Suc.prems(1) obtain c where c: "InspectContainer w
      (log @ polls containerID n @ [Sleep_call watchDuration]) containerID = Inr c"
      "Running (State c)" by blast
  have next_r: "r + int n * watchDuration + watchDuration = r + int (Suc n) * watchDuration"
    by (simp add: algebra_simps)
  have "watchContainer_loop w containerID (r + int n * watchDuration)
           (log @ polls containerID n) =
        watchContainer_loop w containerID (r + int (Suc n) * watchDuration)
           (log @ polls containerID (Suc n))"
    apply (subst watchContainer_loop.simps)
    using c Suc.prems(2) by (simp add: Let_def next_r polls_Suc)
  with step show ?case by simp
qed

lemma watchContainer_loop_events:
  "\<exists>evs. snd (watchContainer_loop w containerID r log) = log @ evs \<and>
     (\<forall>e \<in> set evs. is_Sleep e \<or> is_InspectContainer e)"
proof (induction w containerID r log rule: watchContainer_loop.induct)
  case (1 w containerID r log)
  let ?log1 = "log @ [Sleep_call watchDuration]"
  let ?log2 = "?log1 @ [InspectContainer_call containerID]"
  show ?case
  proof (cases "r + watchDuration > maxProcessDuration")
    case True
    then have "snd (watchContainer_loop w containerID r log) = log @ [Sleep_call watchDuration]"
      by (subst watchContainer_loop.simps) (simp add: Let_def)
    then show ?thesis by simp
  next
    case False
    show ?thesis
    proof (cases "InspectContainer w ?log1 containerID")
      case (Inl err)
      with False have "snd (watchContainer_loop w containerID r log) =
          log @ [Sleep_call watchDuration, InspectContainer_call containerID]"
        by (subst watchContainer_loop.simps) (simp add: Let_def)
      then show ?thesis by simp
    next
      case (Inr c)
      show ?thesis
      proof (cases "Running (State c)")
        case False
        with \<open>\<not> r + watchDuration > maxProcessDuration\<close> Inr
        have "snd (watchContainer_loop w containerID r log) =
          log @ [Sleep_call watchDuration, InspectContainer_call containerID]"
          by (subst watchContainer_loop.simps) (simp add: Let_def)
        then show ?thesis by simp
      next
        case True
        with \<open>\<not> r + watchDuration > maxProcessDuration\<close> Inr
        have eq: "watchContainer_loop w containerID r log =
           watchContainer_loop w containerID (r + watchDuration) ?log2"
          by (subst watchContainer_loop.simps) (simp add: Let_def)
        from "1.IH"[OF refl refl \<open>\<not> r + watchDuration > maxProcessDuration\<close> Inr] True
        obtain evs where evs:
          "snd (watchContainer_loop w containerID (r + watchDuration) ?log2) = ?log2 @ evs"
          "\<forall>e \<in> set evs. is_Sleep e \<or> is_InspectContainer e" by auto
        have "snd (watchContainer_loop w containerID r log) =
            log @ (Sleep_call watchDuration # InspectContainer_call containerID # evs)"
          using eq evs(1) by simp
        moreover have "\<forall>e \<in> set (Sleep_call watchDuration # InspectContainer_call containerID # evs).
            is_Sleep e \<or> is_InspectContainer e"
          using evs(2) by simp
        ultimately show ?thesis by blast
      qed
    qed
  qed
qed

lemma watchContainer_events:
  "\<exists>evs. snd (watchContainer w containerID log) = log @ evs \<and>
     (\<forall>e \<in> set evs. is_Sleep e \<or> is_InspectContainer e)"
proof -
  have "snd (watchContainer w containerID log) = snd (watchContainer_loop w containerID 0 log)"
    by (simp add: watchContainer_def split: prod.splits sum.splits)
  then show ?thesis using watchContainer_loop_events by simp
qed

section \<open>Events of a run\<close>

lemma not_RemoveContainer:
  "is_PullImage e \<or> is_CreateContainer e \<or> is_FilteredListNetworks e \<or> is_ConnectNetwork e \<or>
   is_StartContainer e \<or> is_InspectContainer e \<or> is_Sleep e \<Longrightarrow> \<not> is_RemoveContainer e"
  by (cases e) auto

lemma Run_container_events:
  "\<exists>evs. snd (snd (Run_container w j log)) = log @ evs \<and>
     (\<forall>e \<in> set evs. \<not> is_RemoveContainer e)"
proof (cases "Image j \<noteq> [] \<and> Container j = []")
  case True
  show ?thesis
  proof (cases "PullImage w log (Image j)")
    case (Some err)
    with True show ?thesis by (simp add: Run_container_def pullImage_def)
  next
    case None
    obtain evs where evs:
      "snd (snd (buildContainer w j (log @ [PullImage_call (Image j)]))) =
         (log @ [PullImage_call (Image j)]) @ evs"
      "\<forall>e \<in> set evs. is_CreateContainer e \<or> is_FilteredListNetworks e \<or> is_ConnectNetwork e"
      using buildContainer_events by blast
    have "snd (snd (Run_container w j log)) = log @ (PullImage_call (Image j) # evs)"
      using True None evs(1) by (simp add: Run_container_def pullImage_def)
    moreover have "\<forall>e \<in> set (PullImage_call (Image j) # evs). \<not> is_RemoveContainer e"
      using evs(2) not_RemoveContainer by auto
    ultimately show ?thesis by blast
  qed
next
  case False
  then have "snd (snd (Run_container w j log)) = log @ [InspectContainer_call (Container j)]"
    by (auto simp: Run_container_def getContainer_def split: sum.splits)
  then show ?thesis by simp
qed

text \<open>What \<^verbatim>\<open>Run\<close> adds to the log after the container step, and what its last step adds.\<close>

lemma Run_steps:
  assumes rc: "Run_container w j log = (co, eo, log1)"
  shows "\<exists>evs. snd (Run w j log) = log1 @ evs @
       (case Run_watched w j log of
          Some (c, log3) \<Rightarrow>
            if Container j = [] \<and> Delete j
            then [RemoveContainer_call \<lparr>Remove_ID = ID c, RemoveVolumes = False, Force = False\<rparr>]
            else []
        | None \<Rightarrow> [])
     \<and> (\<forall>e \<in> set evs. is_StartContainer e \<or> is_Sleep e \<or> is_InspectContainer e)"
proof (cases eo)
  case (Some err)
  with rc have "snd (Run w j log) = log1" "Run_watched w j log = None"
    by (auto simp: Run_def Run_watched_def split: option.splits)
  then show ?thesis by simp
next
  case None
  show ?thesis
  proof (cases co)
    case None
    with rc \<open>eo = None\<close> have "snd (Run w j log) = log1" "Run_watched w j log = None"
      by (auto simp: Run_def Run_watched_def)
    then show ?thesis by simp
  next
    case (Some c)
    let ?log2 = "log1 @ [StartContainer_call (ID c)]"
    show ?thesis
    proof (cases "StartContainer w log1 (ID c)")
      case (Some err)
      with rc \<open>eo = None\<close> \<open>co = Some c\<close>
      have "snd (Run w j log) = log1 @ [StartContainer_call (ID c)] @ []"
        "Run_watched w j log = None"
        by (auto simp: Run_def Run_watched_def startContainer_def)
      then show ?thesis by (intro exI[of _ "[StartContainer_call (ID c)]"]) simp
    next
      case None
      obtain r log3 where wc: "watchContainer w (ID c) ?log2 = (r, log3)"
        by (cases "watchContainer w (ID c) ?log2") auto
      obtain evs3 where evs3: "log3 = ?log2 @ evs3"
        "\<forall>e \<in> set evs3. is_Sleep e \<or> is_InspectContainer e"
        using watchContainer_events[of w "ID c" ?log2] wc by auto
      have evs: "log3 = log1 @ (StartContainer_call (ID c) # evs3)"
        using evs3(1) by simp
      have kinds: "\<forall>e \<in> set (StartContainer_call (ID c) # evs3).
          is_StartContainer e \<or> is_Sleep e \<or> is_InspectContainer e"
        using evs3(2) by simp
      show ?thesis
      proof (cases r)
        case (Some err)
        with rc \<open>eo = None\<close> \<open>co = Some c\<close> None wc
        have "snd (Run w j log) = log3" "Run_watched w j log = None"
          by (auto simp: Run_def Run_watched_def startContainer_def)
        with evs kinds show ?thesis
          by (intro exI[of _ "StartContainer_call (ID c) # evs3"]) simp
      next
        case rNone: None
        with rc \<open>eo = None\<close> \<open>co = Some c\<close> None wc
        have w: "Run_watched w j log = Some (c, log3)"
          by (auto simp: Run_watched_def startContainer_def)
        from rNone rc \<open>eo = None\<close> \<open>co = Some c\<close> None wc
        have "snd (Run w j log) = log3 @
           (if Container j = [] \<and> Delete j
            then [RemoveContainer_call \<lparr>Remove_ID = ID c, RemoveVolumes = False, Force = False\<rparr>]
            else [])"
          by (auto simp: Run_def startContainer_def deleteContainer_def Let_def)
        with evs kinds w show ?thesis
          by (intro exI[of _ "StartContainer_call (ID c) # evs3"]) simp
      qed
    qed
  qed
qed

lemma Run_log:
  "\<exists>evs. snd (Run w j log) = log @ evs @
       (case Run_watched w j log of
          Some (c, log3) \<Rightarrow>
            if Container j = [] \<and> Delete j
            then [RemoveContainer_call \<lparr>Remove_ID = ID c, RemoveVolumes = False, Force = False\<rparr>]
            else []
        | None \<Rightarrow> [])
     \<and> (\<forall>e \<in> set evs. \<not> is_RemoveContainer e)"
proof -
  let ?reaper = "case Run_watched w j log of
          Some (c, log3) \<Rightarrow>
            if Container j = [] \<and> Delete j
            then [RemoveContainer_call \<lparr>Remove_ID = ID c, RemoveVolumes = False, Force = False\<rparr>]
            else []
        | None \<Rightarrow> []"
  obtain co eo log1 where rc: "Run_container w j log = (co, eo, log1)"
    by (cases "Run_container w j log") auto
  obtain evs1 where evs1: "log1 = log @ evs1" "\<forall>e \<in> set evs1. \<not> is_RemoveContainer e"
    using Run_container_events[of w j log] rc by auto
  obtain evs2 where evs2: "snd (Run w j log) = log1 @ evs2 @ ?reaper"
    "\<forall>e \<in> set evs2. is_StartContainer e \<or> is_Sleep e \<or> is_InspectContainer e"
    using Run_steps[OF rc] by blast
  have "snd (Run w j log) = log @ (evs1 @ evs2) @ ?reaper"
    using evs1(1) evs2(1) by simp
  moreover have "\<forall>e \<in> set (evs1 @ evs2). \<not> is_RemoveContainer e"
    using evs1(2) evs2(2) not_RemoveContainer by auto
  ultimately show ?thesis by blast
qed




text \<open>The run of the test job in the test world.\<close>

lemma Run_test:
  "Run test_world test_job [] =
     (None,
      [PullImage_call ''test-image'',
       CreateContainer_call
         \<lparr>Config_Image = ''test-image'', AttachStdin = False, AttachStdout = True,
          AttachStderr = True, Tty = True, Cmd = [''echo''], Config_User = ''foo'',
          Config_Env = [],
          Mounts = [\<lparr>Source = ''/data'', Destination = ''/data'', RW = True\<rparr>,
                    \<lparr>Source = ''/another/path'', Destination = ''/config'', RW = True\<rparr>]\<rparr>,
       FilteredListNetworks_call [(''name'', [(''foo'', True)])],
       ConnectNetwork_call ''n1'' ''c1'',
       StartContainer_call ''c1'',
       Sleep_call 100000000,
       InspectContainer_call ''c1'',
       RemoveContainer_call \<lparr>Remove_ID = ''c1'', RemoveVolumes = False, Force = False\<rparr>])"
  by (simp add: Run_def Run_container_def pullImage_def buildContainer_def
        buildContainer_envs_def buildContainer_mounts_def buildContainer_config_def
        parseEnvSpecs_def parseEnvSpecs_loop_skips parseVolumeSpec_def
        startContainer_def watchContainer_def watchContainer_loop.simps
        watchDuration_def maxProcessDuration_def deleteContainer_def
        test_world_def test_job_def)


section \<open>The environment parser\<close>

text \<open>
  C1. The claim: \<^verbatim>\<open>parseEnvEntries\<close> returns, in input order, every entry that contains an
  \<^verbatim>\<open>=\<close>, and fails when an entry contains none. The code does neither: the first test of the
  loop body, \<^verbatim>\<open>len(spec) > 0\<close>, holds for every entry, so every entry is skipped and the
  format error below it is never reached. On the claim's own two inputs the result is the
  empty list with no error.
\<close>

theorem parseEnvSpecs_drops_entries:
  "parseEnvSpecs [''K1=v1'', ''K2=v2''] = Inr [] \<and> parseEnvSpecs [''novalue''] = Inr []"
  by (simp add: parseEnvSpecs_def parseEnvSpecs_loop_skips)

text \<open>
  C10. For every list of entries \<^verbatim>\<open>parseEnvSpecs\<close> returns the empty list and no error, and every
  configuration that \<^verbatim>\<open>buildContainer\<close> hands to \<^verbatim>\<open>CreateContainer\<close> has an empty
  environment.
\<close>

theorem parseEnvSpecs_always_empty:
  "parseEnvSpecs envSpecs = Inr [] \<and>
   (\<forall>config. CreateContainer_call config
        \<in> set (new_events log (snd (snd (buildContainer w j log)))) \<longrightarrow>
      Config_Env config = [])"
proof
  show "parseEnvSpecs envSpecs = Inr []"
    by (simp add: parseEnvSpecs_def parseEnvSpecs_loop_skips)
next
  obtain evs where evs: "snd (snd (buildContainer w j log)) = log @ evs"
    "\<forall>config. CreateContainer_call config \<in> set evs \<longrightarrow>
        (\<exists>envs. buildContainer_envs w j = Inr envs \<and> Config_Env config = envs)"
    using buildContainer_events [of w j log] by blast
  show "\<forall>config. CreateContainer_call config
        \<in> set (new_events log (snd (snd (buildContainer w j log)))) \<longrightarrow>
      Config_Env config = []"
  proof (intro allI impI)
    fix config
    assume "CreateContainer_call config
        \<in> set (new_events log (snd (snd (buildContainer w j log))))"
    with evs(1) have "CreateContainer_call config \<in> set evs" by (simp add: new_events_def)
    with evs(2) obtain envs where "buildContainer_envs w j = Inr envs"
      "Config_Env config = envs" by blast
    then show "Config_Env config = []"
      using buildContainer_envs_Nil by simp
  qed
qed

theorem parseEnvSpecs_always_empty_witness:
  "CreateContainer_call
      \<lparr>Config_Image = ''test-image'', AttachStdin = False, AttachStdout = True,
       AttachStderr = True, Tty = True, Cmd = [''echo''], Config_User = ''foo'',
       Config_Env = [],
       Mounts = [\<lparr>Source = ''/data'', Destination = ''/data'', RW = True\<rparr>,
                 \<lparr>Source = ''/another/path'', Destination = ''/config'', RW = True\<rparr>]\<rparr>
     \<in> set (new_events [] (snd (snd (buildContainer test_world test_job []))))"
  using parseEnvSpecs_always_empty [of "[''KEY1=val1'', ''KEY2=val2'']" "[]" test_world test_job]
  by (simp add: new_events_def buildContainer_def buildContainer_envs_def
        buildContainer_mounts_def buildContainer_config_def parseEnvSpecs_def
        parseVolumeSpec_def test_world_def test_job_def)

section \<open>The volume parser\<close>

lemma parseVolumeSpec_find:
  "parseVolumeSpec volumeSpec =
     (case find (\<lambda>specs. length (filter (\<lambda>c. c = CHR '':'') specs) \<noteq> 1)
             (Split volumeSpec CHR '','') of
        Some specs \<Rightarrow> Inl (ErrVolumeSpecFormat specs)
      | None \<Rightarrow>
          Inr (map (\<lambda>specs. \<lparr>From = takeWhile (\<lambda>c. c \<noteq> CHR '':'') specs,
                             To = tl (dropWhile (\<lambda>c. c \<noteq> CHR '':'') specs)\<rparr>)
                 (Split volumeSpec CHR '','')))"
proof -
  let ?bad = "\<lambda>specs. length (filter (\<lambda>c. c = CHR '':'') specs) \<noteq> 1"
  let ?entries = "Split volumeSpec CHR '',''"
  have bad: "(\<lambda>specs. length (Split specs CHR '':'') \<noteq> 2) = ?bad"
    by (auto simp: length_Split)
  have loop: "parseVolumeSpec volumeSpec = parseVolumeSpec_loop ?entries []"
    by (simp add: parseVolumeSpec_def Split_not_Nil)
  show ?thesis
  proof (cases "find ?bad ?entries")
    case (Some specs)
    then show ?thesis
      unfolding loop parseVolumeSpec_loop_find bad by simp
  next
    case None
    then have ok: "\<forall>specs \<in> set ?entries. length (filter (\<lambda>c. c = CHR '':'') specs) = 1"
      by (auto simp: find_None_iff)
    have "map (\<lambda>specs. \<lparr>From = Split specs CHR '':'' ! 0, To = Split specs CHR '':'' ! 1\<rparr>) ?entries
        = map (\<lambda>specs. \<lparr>From = takeWhile (\<lambda>c. c \<noteq> CHR '':'') specs,
                         To = tl (dropWhile (\<lambda>c. c \<noteq> CHR '':'') specs)\<rparr>) ?entries"
      using ok by (intro map_cong refl) (simp add: Split_one_sep)
    with None show ?thesis
      unfolding loop parseVolumeSpec_loop_find bad by simp
  qed
qed

text \<open>
  C2, as the code has it. The specification is cut at every comma and each entry at every
  colon. An entry is accepted when it has exactly one colon, that is exactly two parts, and
  either part may be empty; the mount is the text before the colon and the text after it.
  The first entry with another number of colons fails the whole parse with an error that
  carries that entry. The mounts come in the order of the entries.
\<close>

theorem parseVolumeSpec_two_parts:
  "parseVolumeSpec volumeSpec =
     (case find (\<lambda>specs. length (filter (\<lambda>c. c = CHR '':'') specs) \<noteq> 1)
             (Split volumeSpec CHR '','') of
        Some specs \<Rightarrow> Inl (ErrVolumeSpecFormat specs)
      | None \<Rightarrow>
          Inr (map (\<lambda>specs. \<lparr>From = takeWhile (\<lambda>c. c \<noteq> CHR '':'') specs,
                             To = tl (dropWhile (\<lambda>c. c \<noteq> CHR '':'') specs)\<rparr>)
                 (Split volumeSpec CHR '','')))
   \<and> parseVolumeSpec ''/data:/data,/a:/b'' =
       Inr [\<lparr>From = ''/data'', To = ''/data''\<rparr>, \<lparr>From = ''/a'', To = ''/b''\<rparr>]
   \<and> parseVolumeSpec ''/data'' = Inl (ErrVolumeSpecFormat ''/data'')"
proof (intro conjI)
  show "parseVolumeSpec ''/data:/data,/a:/b'' =
       Inr [\<lparr>From = ''/data'', To = ''/data''\<rparr>, \<lparr>From = ''/a'', To = ''/b''\<rparr>]"
    by (simp add: parseVolumeSpec_def)
  show "parseVolumeSpec ''/data'' = Inl (ErrVolumeSpecFormat ''/data'')"
    by (simp add: parseVolumeSpec_def)
qed (rule parseVolumeSpec_find)

text \<open>
  C2, as the claim has it, asks for two non-empty parts. The code accepts an entry whose
  host path is empty.
\<close>

theorem parseVolumeSpec_empty_part_counterexample:
  "parseVolumeSpec '':/data'' = Inr [\<lparr>From = [], To = ''/data''\<rparr>]"
  by (simp add: parseVolumeSpec_def)

section \<open>The poll loop\<close>

text \<open>
  C3. A container is watched from the log \<open>log\<close>. Its first \<open>n\<close> inspections report it
  running, the next one, still before the ceiling (\<open>n < 864000\<close>), reports it stopped.
  Then \<^verbatim>\<open>watchContainer\<close> returns after that inspection, and its result is decided by the
  exit code alone: no error for 0, \<^verbatim>\<open>ErrUnexpected\<close> for -1, and for any other code the
  error that carries the code.
\<close>

theorem watchContainer_classifies:
  assumes "\<forall>k<n. \<exists>c. InspectContainer w (log @ polls containerID k @ [Sleep_call watchDuration])
                      containerID = Inr c \<and> Running (State c)"
    and "InspectContainer w (log @ polls containerID n @ [Sleep_call watchDuration])
           containerID = Inr c"
    and "\<not> Running (State c)"
    and "n < 864000"
  shows "watchContainer w containerID log =
           (if ExitCode (State c) = 0 then None
            else if ExitCode (State c) = - 1 then Some ErrUnexpected
            else Some (ErrNonZeroExitCode (ExitCode (State c))),
            log @ polls containerID (Suc n))"
proof -
  have le: "int n * watchDuration + watchDuration \<le> maxProcessDuration"
    using assms(4) by (simp add: watchDuration_def maxProcessDuration_def)
  then have le': "0 + int n * watchDuration \<le> maxProcessDuration"
    by (simp add: watchDuration_def)
  have "watchContainer_loop w containerID 0 log =
        watchContainer_loop w containerID (0 + int n * watchDuration) (log @ polls containerID n)"
    using assms(1) le' by (rule watchContainer_loop_running)
  also have "\<dots> = (Inr (State c), log @ polls containerID (Suc n))"
    apply (subst watchContainer_loop.simps)
    using assms(2,3) le by (simp add: Let_def polls_Suc)
  finally show ?thesis by (simp add: watchContainer_def)
qed

theorem watchContainer_classifies_witness:
  "watchContainer
     (test_world\<lparr>InspectContainer := (\<lambda>log ident.
        if length log < 4 then Inr \<lparr>ID = ident, State = \<lparr>Running = True, ExitCode = 0\<rparr>\<rparr>
        else Inr \<lparr>ID = ident, State = \<lparr>Running = False, ExitCode = 7\<rparr>\<rparr>)\<rparr>)
     ''c1'' [] =
   (Some (ErrNonZeroExitCode 7), polls ''c1'' 3)"
proof -
  let ?w = "test_world\<lparr>InspectContainer := (\<lambda>log ident.
        if length log < 4 then Inr \<lparr>ID = ident, State = \<lparr>Running = True, ExitCode = 0\<rparr>\<rparr>
        else Inr \<lparr>ID = ident, State = \<lparr>Running = False, ExitCode = 7\<rparr>\<rparr>)\<rparr>"
  note len = length_polls
  have running: "\<forall>k<2. \<exists>c. InspectContainer ?w ([] @ polls ''c1'' k @ [Sleep_call watchDuration])
                      ''c1'' = Inr c \<and> Running (State c)"
    by (simp add: len)
  have stopped: "InspectContainer ?w ([] @ polls ''c1'' 2 @ [Sleep_call watchDuration]) ''c1''
      = Inr \<lparr>ID = ''c1'', State = \<lparr>Running = False, ExitCode = 7\<rparr>\<rparr>"
    by (simp add: len)
  show ?thesis
    using watchContainer_classifies [OF running stopped] by (simp add: numeral_3_eq_3)
qed

text \<open>
  C4. A container whose every inspection reports it running is given up after 864000
  rounds: each round sleeps 100 ms and inspects once, the sleep of round 864001 brings the
  accumulated duration above 24 hours, and \<^verbatim>\<open>watchContainer\<close> returns
  \<^verbatim>\<open>ErrMaxTimeRunning\<close> right after that sleep, without another inspection.
\<close>

theorem watchContainer_times_out:
  assumes "\<forall>k<864000. \<exists>c. InspectContainer w
             (log @ polls containerID k @ [Sleep_call watchDuration]) containerID = Inr c
             \<and> Running (State c)"
  shows "watchContainer w containerID log =
           (Some ErrMaxTimeRunning, log @ polls containerID 864000 @ [Sleep_call watchDuration])
         \<and> watchDuration = 100 * 1000000
         \<and> int 864000 * watchDuration \<le> maxProcessDuration
         \<and> maxProcessDuration < int 864001 * watchDuration
         \<and> maxProcessDuration = 24 * (3600 * 1000000000)"
proof -
  have "watchContainer_loop w containerID 0 log =
        watchContainer_loop w containerID (0 + int 864000 * watchDuration)
          (log @ polls containerID 864000)"
    using assms
    by (rule watchContainer_loop_running) (simp add: watchDuration_def maxProcessDuration_def)
  also have "\<dots> = (Inl ErrMaxTimeRunning,
       log @ polls containerID 864000 @ [Sleep_call watchDuration])"
    apply (subst watchContainer_loop.simps)
    by (simp add: Let_def watchDuration_def maxProcessDuration_def)
  finally show ?thesis
    by (simp add: watchContainer_def watchDuration_def maxProcessDuration_def)
qed

theorem watchContainer_times_out_witness:
  "watchContainer
     (test_world\<lparr>InspectContainer := (\<lambda>log ident.
        Inr \<lparr>ID = ident, State = \<lparr>Running = True, ExitCode = 0\<rparr>\<rparr>)\<rparr>)
     ''c1'' [] =
   (Some ErrMaxTimeRunning, polls ''c1'' 864000 @ [Sleep_call watchDuration])"
  using watchContainer_times_out [of "test_world\<lparr>InspectContainer := (\<lambda>log ident.
        Inr \<lparr>ID = ident, State = \<lparr>Running = True, ExitCode = 0\<rparr>\<rparr>)\<rparr>" "[]" "''c1''"]
  by simp

section \<open>The removal of the container\<close>




text \<open>
  C6, as the code has it. When \<^verbatim>\<open>Run\<close> removes a container, the request names the
  container of the run and nothing else: the force option and the removal of volumes are
  both left off.
\<close>

theorem Run_removes_unforced:
  assumes "RemoveContainer_call opts \<in> set (new_events log (snd (Run w j log)))"
  shows "\<not> Force opts \<and> \<not> RemoveVolumes opts \<and>
         (\<exists>c log3. Run_watched w j log = Some (c, log3) \<and> Remove_ID opts = ID c)"
proof -
  obtain evs where evs: "snd (Run w j log) = log @ evs @
       (case Run_watched w j log of
          Some (c, log3) \<Rightarrow>
            if Container j = [] \<and> Delete j
            then [RemoveContainer_call \<lparr>Remove_ID = ID c, RemoveVolumes = False, Force = False\<rparr>]
            else []
        | None \<Rightarrow> [])"
    "\<forall>e \<in> set evs. \<not> is_RemoveContainer e"
    using Run_log by blast
  have no_rm: "RemoveContainer_call opts \<notin> set evs"
    using evs(2) by auto
  show ?thesis
  proof (cases "Run_watched w j log")
    case None
    with no_rm assms show ?thesis unfolding evs(1) new_events_def by simp
  next
    case (Some p)
    then obtain c log3 where "Run_watched w j log = Some (c, log3)" by (cases p) simp
    with no_rm assms show ?thesis
      unfolding evs(1) new_events_def by (auto split: if_splits)
  qed
qed

theorem Run_removes_unforced_witness:
  "RemoveContainer_call \<lparr>Remove_ID = ''c1'', RemoveVolumes = False, Force = False\<rparr>
     \<in> set (new_events [] (snd (Run test_world test_job [])))
   \<and> \<not> Force \<lparr>Remove_ID = ''c1'', RemoveVolumes = False, Force = False\<rparr>
   \<and> (\<exists>c log3. Run_watched test_world test_job [] = Some (c, log3) \<and> ''c1'' = ID c)"
proof -
  have h: "RemoveContainer_call \<lparr>Remove_ID = ''c1'', RemoveVolumes = False, Force = False\<rparr>
     \<in> set (new_events [] (snd (Run test_world test_job [])))"
    by (simp add: Run_test new_events_def)
  show ?thesis using h Run_removes_unforced [OF h] by simp
qed

text \<open>
  C6, as the claim has it, asks for a forced removal. The run of the test job ends with a
  removal whose force option is off.
\<close>

theorem Run_removes_forced_counterexample:
  "last (snd (Run test_world test_job [])) =
     RemoveContainer_call \<lparr>Remove_ID = ''c1'', RemoveVolumes = False, Force = False\<rparr>"
  by (simp add: Run_test)

section \<open>A job with neither an image nor a container\<close>

text \<open>
  C7, as the code has it. With neither an image nor an existing container set, \<^verbatim>\<open>Run\<close>
  pulls nothing and creates nothing, but it does call the engine: its first call inspects
  the container with the empty identifier. When that inspection fails, \<^verbatim>\<open>Run\<close> returns
  the error of the inspection and has made no other call.
\<close>

theorem Run_without_image_or_container:
  assumes "Image j = []" and "Container j = []"
  shows "(\<exists>evs. new_events log (snd (Run w j log)) = InspectContainer_call [] # evs \<and>
            (\<forall>e \<in> set evs. \<not> is_PullImage e \<and> \<not> is_CreateContainer e)) \<and>
         (\<forall>err. InspectContainer w log [] = Inl err \<longrightarrow>
            Run w j log = (Some err, log @ [InspectContainer_call []]))"
proof
  let ?reaper = "case Run_watched w j log of
          Some (c, log3) \<Rightarrow>
            if Container j = [] \<and> Delete j
            then [RemoveContainer_call \<lparr>Remove_ID = ID c, RemoveVolumes = False, Force = False\<rparr>]
            else []
        | None \<Rightarrow> []"
  have "snd (snd (Run_container w j log)) = log @ [InspectContainer_call []]"
    using assms by (simp add: Run_container_def getContainer_def split: sum.splits)
  then obtain co eo where rc: "Run_container w j log = (co, eo, log @ [InspectContainer_call []])"
    by (cases "Run_container w j log") auto
  obtain evs where evs: "snd (Run w j log) = (log @ [InspectContainer_call []]) @ evs @ ?reaper"
    "\<forall>e \<in> set evs. is_StartContainer e \<or> is_Sleep e \<or> is_InspectContainer e"
    using Run_steps[OF rc] by blast
  have "new_events log (snd (Run w j log)) = InspectContainer_call [] # (evs @ ?reaper)"
    using evs(1) by (simp add: new_events_def)
  moreover have "\<forall>e \<in> set (evs @ ?reaper). \<not> is_PullImage e \<and> \<not> is_CreateContainer e"
    using evs(2) by (auto split: option.splits if_splits)
  ultimately show "\<exists>evs. new_events log (snd (Run w j log)) = InspectContainer_call [] # evs \<and>
            (\<forall>e \<in> set evs. \<not> is_PullImage e \<and> \<not> is_CreateContainer e)"
    by blast
next
  show "\<forall>err. InspectContainer w log [] = Inl err \<longrightarrow>
            Run w j log = (Some err, log @ [InspectContainer_call []])"
    using assms by (simp add: Run_def Run_container_def getContainer_def)
qed

theorem Run_without_image_or_container_witness:
  "Run (test_world\<lparr>InspectContainer := (\<lambda>log ident. Inl (ExternalError ''cannot connect''))\<rparr>)
       (test_job\<lparr>Image := [], Container := []\<rparr>) [] =
     (Some (ExternalError ''cannot connect''), [InspectContainer_call []])"
proof -
  let ?w = "test_world\<lparr>InspectContainer := (\<lambda>log ident. Inl (ExternalError ''cannot connect''))\<rparr>"
  let ?j = "test_job\<lparr>Image := [], Container := []\<rparr>"
  have i: "Image ?j = []" and c: "Container ?j = []" by simp_all
  show ?thesis
    using Run_without_image_or_container [OF i c, of "[]" ?w] by simp
qed

text \<open>
  C7, as the claim has it, asks for a configuration error before any engine call. The
  test job with both fields emptied inspects the empty identifier, and the error returned
  is the engine's.
\<close>

theorem Run_inspects_empty_identifier_counterexample:
  "Run test_world (test_job\<lparr>Image := [], Container := []\<rparr>) [] =
     (Some (ExternalError ''No such container''), [InspectContainer_call []])"
  by (simp add: Run_def Run_container_def getContainer_def test_world_def test_job_def)

section \<open>The network of a new container\<close>

text \<open>
  C8. The specification parses, the container \<open>c\<close> is created, a network name is set and
  the engine lists the networks \<open>connected @ network # rest\<close>. Connecting \<open>c\<close> succeeds for
  each network of \<open>connected\<close> and fails for \<open>network\<close>. Then \<^verbatim>\<open>buildContainer\<close> returns
  the error of the connection together with \<open>c\<close>, it stops connecting, and it has not
  asked for the removal of anything.
\<close>

theorem buildContainer_connect_failure_keeps_container:
  assumes "buildContainer_envs w j = Inr envs"
    and "buildContainer_mounts j = Inr mounts"
    and "config = buildContainer_config w j envs mounts"
    and "CreateContainer w log config = Inr c"
    and "Network j \<noteq> []"
    and "log2 = log @ [CreateContainer_call config,
                       FilteredListNetworks_call [(''name'', [(Network j, True)])]]"
    and "FilteredListNetworks w (log @ [CreateContainer_call config])
           [(''name'', [(Network j, True)])] = Inr (connected @ network # rest)"
    and "\<forall>pre n post. connected = pre @ n # post \<longrightarrow>
           ConnectNetwork w (log2 @ map (\<lambda>n. ConnectNetwork_call (Network_ID n) (ID c)) pre)
             (Network_ID n) (ID c) = None"
    and "ConnectNetwork w (log2 @ map (\<lambda>n. ConnectNetwork_call (Network_ID n) (ID c)) connected)
           (Network_ID network) (ID c) = Some err"
  shows "buildContainer w j log =
           (Some c, Some (ErrConnectingNetwork err),
            log2 @ map (\<lambda>n. ConnectNetwork_call (Network_ID n) (ID c)) (connected @ [network]))
         \<and> (\<forall>e \<in> set (new_events log (snd (snd (buildContainer w j log)))).
               \<not> is_RemoveContainer e)"
proof -
  have "connectNetworks w c (connected @ network # rest) log2 =
           (Some (ErrConnectingNetwork err),
            log2 @ map (\<lambda>n. ConnectNetwork_call (Network_ID n) (ID c)) (connected @ [network]))"
    using assms(8,9) by (rule connectNetworks_stops)
  then have result: "buildContainer w j log =
           (Some c, Some (ErrConnectingNetwork err),
            log2 @ map (\<lambda>n. ConnectNetwork_call (Network_ID n) (ID c)) (connected @ [network]))"
    using assms(1-7) by (simp add: buildContainer_def Let_def)
  have "\<forall>e \<in> set (new_events log (snd (snd (buildContainer w j log)))).
               \<not> is_RemoveContainer e"
    unfolding result using assms(6) by (auto simp: new_events_def)
  with result show ?thesis by simp
qed

theorem buildContainer_connect_failure_keeps_container_witness:
  "buildContainer
     (test_world\<lparr>ConnectNetwork := (\<lambda>log network container. Some (ExternalError ''refused''))\<rparr>)
     test_job [] =
   (Some \<lparr>ID = ''c1'', State = \<lparr>Running = False, ExitCode = 0\<rparr>\<rparr>,
    Some (ErrConnectingNetwork (ExternalError ''refused'')),
    [CreateContainer_call
       \<lparr>Config_Image = ''test-image'', AttachStdin = False, AttachStdout = True,
        AttachStderr = True, Tty = True, Cmd = [''echo''], Config_User = ''foo'',
        Config_Env = [],
        Mounts = [\<lparr>Source = ''/data'', Destination = ''/data'', RW = True\<rparr>,
                  \<lparr>Source = ''/another/path'', Destination = ''/config'', RW = True\<rparr>]\<rparr>,
     FilteredListNetworks_call [(''name'', [(''foo'', True)])],
     ConnectNetwork_call ''n1'' ''c1''])"
proof -
  let ?w = "test_world\<lparr>ConnectNetwork :=
              (\<lambda>log network container. Some (ExternalError ''refused''))\<rparr>"
  let ?mounts = "[\<lparr>Source = ''/data'', Destination = ''/data'', RW = True\<rparr>,
                  \<lparr>Source = ''/another/path'', Destination = ''/config'', RW = True\<rparr>]"
  let ?config = "\<lparr>Config_Image = ''test-image'', AttachStdin = False, AttachStdout = True,
        AttachStderr = True, Tty = True, Cmd = [''echo''], Config_User = ''foo'',
        Config_Env = [], Mounts = ?mounts\<rparr>"
  let ?c = "\<lparr>ID = ''c1'', State = \<lparr>Running = False, ExitCode = 0\<rparr>\<rparr>"
  let ?log2 = "[] @ [CreateContainer_call ?config,
                     FilteredListNetworks_call [(''name'', [(Network test_job, True)])]]"
  have envs: "buildContainer_envs ?w test_job = Inr []"
    by (simp add: buildContainer_envs_def parseEnvSpecs_def parseEnvSpecs_loop_skips test_job_def)
  have mounts: "buildContainer_mounts test_job = Inr ?mounts"
    by (simp add: buildContainer_mounts_def parseVolumeSpec_def test_job_def)
  have config: "?config = buildContainer_config ?w test_job [] ?mounts"
    by (simp add: buildContainer_config_def test_world_def test_job_def)
  have create: "CreateContainer ?w [] ?config = Inr ?c"
    by (simp add: test_world_def)
  have network: "Network test_job \<noteq> []"
    by (simp add: test_job_def)
  have listed: "FilteredListNetworks ?w ([] @ [CreateContainer_call ?config])
           [(''name'', [(Network test_job, True)])] = Inr ([] @ \<lparr>Network_ID = ''n1''\<rparr> # [])"
    by (simp add: test_world_def)
  have before: "\<forall>pre n post. [] = pre @ n # post \<longrightarrow>
           ConnectNetwork ?w (?log2 @ map (\<lambda>n. ConnectNetwork_call (Network_ID n) (ID ?c)) pre)
             (Network_ID n) (ID ?c) = None"
    by simp
  have refused: "ConnectNetwork ?w
           (?log2 @ map (\<lambda>n. ConnectNetwork_call (Network_ID n) (ID ?c)) [])
           (Network_ID \<lparr>Network_ID = ''n1''\<rparr>) (ID ?c) = Some (ExternalError ''refused'')"
    by simp
  show ?thesis
    using buildContainer_connect_failure_keeps_container
      [OF envs mounts config create network refl listed before refused]
    by (simp add: test_job_def)
qed

text \<open>
  C9. The specification parses, the container \<open>c\<close> is created, a network name is set and
  the listing of the networks fails. Then \<^verbatim>\<open>buildContainer\<close> returns \<open>c\<close> and no error;
  the listing is its last call, so it connects nothing and the failure is not reported.
\<close>

theorem buildContainer_ignores_list_failure:
  assumes "buildContainer_envs w j = Inr envs"
    and "buildContainer_mounts j = Inr mounts"
    and "config = buildContainer_config w j envs mounts"
    and "CreateContainer w log config = Inr c"
    and "Network j \<noteq> []"
    and "FilteredListNetworks w (log @ [CreateContainer_call config])
           [(''name'', [(Network j, True)])] = Inl err"
  shows "buildContainer w j log =
           (Some c, None,
            log @ [CreateContainer_call config,
                   FilteredListNetworks_call [(''name'', [(Network j, True)])]])"
  using assms by (simp add: buildContainer_def Let_def)

theorem buildContainer_ignores_list_failure_witness:
  "buildContainer
     (test_world\<lparr>FilteredListNetworks := (\<lambda>log opts. Inl (ExternalError ''unavailable''))\<rparr>)
     test_job [] =
   (Some \<lparr>ID = ''c1'', State = \<lparr>Running = False, ExitCode = 0\<rparr>\<rparr>, None,
    [CreateContainer_call
       \<lparr>Config_Image = ''test-image'', AttachStdin = False, AttachStdout = True,
        AttachStderr = True, Tty = True, Cmd = [''echo''], Config_User = ''foo'',
        Config_Env = [],
        Mounts = [\<lparr>Source = ''/data'', Destination = ''/data'', RW = True\<rparr>,
                  \<lparr>Source = ''/another/path'', Destination = ''/config'', RW = True\<rparr>]\<rparr>,
     FilteredListNetworks_call [(''name'', [(''foo'', True)])]])"
proof -
  let ?w = "test_world\<lparr>FilteredListNetworks :=
              (\<lambda>log opts. Inl (ExternalError ''unavailable''))\<rparr>"
  let ?mounts = "[\<lparr>Source = ''/data'', Destination = ''/data'', RW = True\<rparr>,
                  \<lparr>Source = ''/another/path'', Destination = ''/config'', RW = True\<rparr>]"
  let ?config = "\<lparr>Config_Image = ''test-image'', AttachStdin = False, AttachStdout = True,
        AttachStderr = True, Tty = True, Cmd = [''echo''], Config_User = ''foo'',
        Config_Env = [], Mounts = ?mounts\<rparr>"
  let ?c = "\<lparr>ID = ''c1'', State = \<lparr>Running = False, ExitCode = 0\<rparr>\<rparr>"
  have envs: "buildContainer_envs ?w test_job = Inr []"
    by (simp add: buildContainer_envs_def parseEnvSpecs_def parseEnvSpecs_loop_skips test_job_def)
  have mounts: "buildContainer_mounts test_job = Inr ?mounts"
    by (simp add: buildContainer_mounts_def parseVolumeSpec_def test_job_def)
  have config: "?config = buildContainer_config ?w test_job [] ?mounts"
    by (simp add: buildContainer_config_def test_world_def test_job_def)
  have create: "CreateContainer ?w [] ?config = Inr ?c"
    by (simp add: test_world_def)
  have network: "Network test_job \<noteq> []"
    by (simp add: test_job_def)
  have failed: "FilteredListNetworks ?w ([] @ [CreateContainer_call ?config])
           [(''name'', [(Network test_job, True)])] = Inl (ExternalError ''unavailable'')"
    by simp
  show ?thesis
    using buildContainer_ignores_list_failure [OF envs mounts config create network failed]
    by (simp add: test_job_def)
qed

end
